theory Spec2Isabelle
  imports Main
begin

section \<open>Data model of paxos.go\<close>

text \<open>
  The Go types of \<^verbatim>\<open>paxos.go\<close>.  A value of type \<^verbatim>\<open>interface{}\<close> is an
  \<open>'v option\<close>, with \<open>None\<close> for \<^verbatim>\<open>nil\<close>.  Go's \<^verbatim>\<open>int\<close> (sequence numbers,
  watermarks, vote counters) and \<^verbatim>\<open>int64\<close> (ballots, called stamps in the code) are
  modelled by \<open>int\<close>, for a 64-bit target: stamps and sequence numbers are only compared
  and copied, a vote counter is bounded by the number of peers, and the one addition in
  \<^verbatim>\<open>Min\<close> is applied to a value that is at most \<open>0x7fffffff\<close>, so nothing wraps
  around.  The map \<^verbatim>\<open>instance\<close> holds one freshly allocated \<^verbatim>\<open>*PaxosInst\<close> per key
  and no pointer is stored twice, so it is a partial map from sequence numbers to
  records.  The fields \<^verbatim>\<open>value\<close>, \<^verbatim>\<open>instance\<close> and \<^verbatim>\<open>done\<close> are called
  \<open>val\<close>, \<open>instances\<close> and \<open>dones\<close> here; the fields of the request and reply structs
  carry a prefix, because several structs share the names \<^verbatim>\<open>Seq\<close>, \<^verbatim>\<open>Value\<close>,
  \<^verbatim>\<open>Stamp\<close> and \<^verbatim>\<open>Code\<close>.
\<close>

datatype ErrCode = ErrOK | ErrNetwork | ErrRejected

datatype State = StateUndecided | StateDecided

record 'v PaxosInst =
  status :: State
  val :: "'v option"
  platest :: int
  alatest :: int

record 'v Paxos =
  peers :: "string list"
  me :: int
  instances :: "int \<rightharpoonup> 'v PaxosInst"
  dones :: "int list"

record PrepareReq =
  preq_Seq :: int
  preq_Stamp :: int

record 'v PrepareRsp =
  prsp_Code :: ErrCode
  prsp_Value :: "'v option"
  prsp_Stamp :: int

record 'v CommitReq =
  creq_Seq :: int
  creq_Value :: "'v option"
  creq_Stamp :: int

record CommitRsp =
  crsp_Code :: ErrCode

record 'v DecideReq =
  dreq_Seq :: int
  dreq_Value :: "'v option"
  dreq_Svrid :: int
  dreq_Done :: int

text \<open>The run-time panic of an indexing expression whose index is out of range.\<close>

datatype error = IndexOutOfRange

section \<open>The acceptor handlers\<close>

text \<open>
  Each handler runs under the lock \<^verbatim>\<open>px.mu\<close>, so it is one atomic step on the peer's
  state: it takes the request and the state and returns the new state with the reply.
\<close>

definition AcceptPrepare :: "PrepareReq \<Rightarrow> 'v Paxos \<Rightarrow> 'v Paxos \<times> 'v PrepareRsp" where
  "AcceptPrepare req px =
     (case instances px (preq_Seq req) of
        None \<Rightarrow>
          (let inst = \<lparr>status = StateUndecided, val = None,
                       platest = preq_Stamp req, alatest = 0\<rparr>
           in (px\<lparr>instances := (instances px)(preq_Seq req \<mapsto> inst)\<rparr>,
               \<lparr>prsp_Code = ErrOK, prsp_Value = val inst, prsp_Stamp = alatest inst\<rparr>))
      | Some inst \<Rightarrow>
          if platest inst \<le> preq_Stamp req then
            (let inst' = inst\<lparr>platest := preq_Stamp req\<rparr>
             in (px\<lparr>instances := (instances px)(preq_Seq req \<mapsto> inst')\<rparr>,
                 \<lparr>prsp_Code = ErrOK, prsp_Value = val inst', prsp_Stamp = alatest inst'\<rparr>))
          else
            (px, \<lparr>prsp_Code = ErrRejected, prsp_Value = val inst,
                  prsp_Stamp = alatest inst\<rparr>))"

definition AcceptCommit :: "'v CommitReq \<Rightarrow> 'v Paxos \<Rightarrow> 'v Paxos \<times> CommitRsp" where
  "AcceptCommit req px =
     (case instances px (creq_Seq req) of
        None \<Rightarrow>
          (let inst = \<lparr>status = StateUndecided, val = creq_Value req,
                       platest = creq_Stamp req, alatest = 0\<rparr>
           in (px\<lparr>instances := (instances px)(creq_Seq req \<mapsto> inst)\<rparr>,
               \<lparr>crsp_Code = ErrOK\<rparr>))
      | Some inst \<Rightarrow>
          if platest inst \<le> creq_Stamp req then
            (let inst' = inst\<lparr>alatest := creq_Stamp req, val := creq_Value req,
                              platest := creq_Stamp req\<rparr>
             in (px\<lparr>instances := (instances px)(creq_Seq req \<mapsto> inst')\<rparr>,
                 \<lparr>crsp_Code = ErrOK\<rparr>))
          else
            (px, \<lparr>crsp_Code = ErrRejected\<rparr>))"

text \<open>
  \<^verbatim>\<open>AcceptDecided\<close> writes the instance first and then \<^verbatim>\<open>px.done[req.Svrid]\<close>; the
  second write panics when \<^verbatim>\<open>req.Svrid\<close> is not an index of \<^verbatim>\<open>px.done\<close>, and the
  panic ends the process.
\<close>

definition AcceptDecided :: "'v DecideReq \<Rightarrow> 'v Paxos \<Rightarrow> error + 'v Paxos" where
  "AcceptDecided req px =
     (let inst = (case instances px (dreq_Seq req) of
                    None \<Rightarrow> \<lparr>status = StateDecided, val = dreq_Value req,
                              platest = 0, alatest = 0\<rparr>
                  | Some i \<Rightarrow> i\<lparr>status := StateDecided, val := dreq_Value req\<rparr>);
          px1 = px\<lparr>instances := (instances px)(dreq_Seq req \<mapsto> inst)\<rparr>
      in if 0 \<le> dreq_Svrid req \<and> dreq_Svrid req < int (length (dones px))
         then Inr (px1\<lparr>dones := (dones px)[nat (dreq_Svrid req) := dreq_Done req]\<rparr>)
         else Inl IndexOutOfRange)"

section \<open>Construction and the watermark\<close>

text \<open>The state that \<^verbatim>\<open>Make\<close> builds: no instance, every watermark entry \<open>-1\<close>.\<close>

definition Make :: "string list \<Rightarrow> int \<Rightarrow> 'v Paxos" where
  "Make ps m = \<lparr>peers = ps, me = m, instances = Map.empty,
                dones = replicate (length ps) (- 1)\<rparr>"

text \<open>
  \<^verbatim>\<open>Min\<close>, called \<open>MinP\<close> here because \<open>Min\<close> is the minimum of a finite set in
  HOL: the first loop lowers \<^verbatim>\<open>ans\<close>, which starts at \<open>0x7fffffff\<close>, to every
  smaller entry of \<^verbatim>\<open>px.done\<close>; the second loop deletes, during the iteration over the
  map, the key it is visiting, so every key is tested once.
\<close>

definition Min_ans :: "int list \<Rightarrow> int" where
  "Min_ans ds =
     (let ans = foldl (\<lambda>ans d. if ans > d then d else ans) 0x7fffffff ds
      in if length ds = 0 then 0 else ans)"

definition MinP :: "'v Paxos \<Rightarrow> 'v Paxos \<times> int" where
  "MinP px =
     (let ans = Min_ans (dones px)
      in (px\<lparr>instances :=
               (\<lambda>seq. case instances px seq of
                         None \<Rightarrow> None
                       | Some inst \<Rightarrow>
                           if seq < ans \<and> status inst = StateDecided then None
                           else Some inst)\<rparr>,
          ans + 1))"

text \<open>
  \<^verbatim>\<open>Done\<close> raises the peer's own entry and never lowers it; it reads and writes
  \<^verbatim>\<open>px.done[px.me]\<close>, which panics when \<^verbatim>\<open>px.me\<close> is not an index.
\<close>

definition Done :: "int \<Rightarrow> 'v Paxos \<Rightarrow> error + 'v Paxos" where
  "Done seq px =
     (if 0 \<le> me px \<and> me px < int (length (dones px)) then
        (if seq \<ge> dones px ! nat (me px)
         then Inr (px\<lparr>dones := (dones px)[nat (me px) := seq]\<rparr>)
         else Inr px)
      else Inl IndexOutOfRange)"

definition Status :: "int \<Rightarrow> 'v Paxos \<Rightarrow> bool \<times> 'v option" where
  "Status seq px =
     (case instances px seq of
        Some inst \<Rightarrow> if status inst = StateDecided then (True, val inst) else (False, None)
      | None \<Rightarrow> (False, None))"

section \<open>Sequences of handler invocations\<close>

text \<open>
  The three handlers are the peer protocol.  A peer serves requests one at a time under
  its lock, in whatever order they arrive; a panic stops the run.
\<close>

datatype 'v msg = Prepare PrepareReq | Accept "'v CommitReq" | Decide "'v DecideReq"

definition handle :: "'v msg \<Rightarrow> 'v Paxos \<Rightarrow> error + 'v Paxos" where
  "handle m px =
     (case m of
        Prepare req \<Rightarrow> Inr (fst (AcceptPrepare req px))
      | Accept req \<Rightarrow> Inr (fst (AcceptCommit req px))
      | Decide req \<Rightarrow> AcceptDecided req px)"

fun handle_all :: "'v msg list \<Rightarrow> 'v Paxos \<Rightarrow> error + 'v Paxos" where
  "handle_all [] px = Inr px"
| "handle_all (m # ms) px =
     (case handle m px of Inl e \<Rightarrow> Inl e | Inr px' \<Rightarrow> handle_all ms px')"

section \<open>The proposer\<close>

text \<open>
  \<^verbatim>\<open>sendPrepare\<close> and \<^verbatim>\<open>sendCommit\<close> start one goroutine per peer; each goroutine
  sends exactly one reply into a channel, and the caller then receives exactly
  \<^verbatim>\<open>len(px.peers)\<close> replies from it.  The replies are produced by the handlers of the
  peers (the peer's own handler for \<^verbatim>\<open>i == px.me\<close>) or by a failed \<^verbatim>\<open>call\<close>, and
  they arrive in the order in which the goroutines finish.  The model takes what the
  receiving loop reads as its input: \<open>ch i\<close> is the outcome of the goroutine whose reply
  is received \<open>i\<close>-th, \<open>None\<close> when its \<^verbatim>\<open>call\<close> returned false and \<open>Some rsp\<close> when
  a handler replied \<open>rsp\<close>.  The time stamp read from the clock is an input as well.
\<close>

definition prepare_reply :: "'v PrepareRsp option \<Rightarrow> 'v PrepareRsp" where
  "prepare_reply r =
     (case r of
        None \<Rightarrow> \<lparr>prsp_Code = ErrNetwork, prsp_Value = None, prsp_Stamp = 0\<rparr>
      | Some rsp \<Rightarrow> rsp)"

definition commit_reply :: "CommitRsp option \<Rightarrow> CommitRsp" where
  "commit_reply r = (case r of None \<Rightarrow> \<lparr>crsp_Code = ErrNetwork\<rparr> | Some rsp \<Rightarrow> rsp)"

definition prepare_replies :: "'v Paxos \<Rightarrow> (nat \<Rightarrow> 'v PrepareRsp option) \<Rightarrow> 'v PrepareRsp list" where
  "prepare_replies px ch = map (\<lambda>i. prepare_reply (ch i)) [0..<length (peers px)]"

definition commit_replies :: "'v Paxos \<Rightarrow> (nat \<Rightarrow> CommitRsp option) \<Rightarrow> CommitRsp list" where
  "commit_replies px ch = map (\<lambda>i. commit_reply (ch i)) [0..<length (peers px)]"

text \<open>One pass of the receiving loop of \<^verbatim>\<open>sendPrepare\<close> on \<open>(agreed, highest, nv)\<close>.\<close>

fun prepare_recv :: "int \<times> int \<times> 'v option \<Rightarrow> 'v PrepareRsp \<Rightarrow> int \<times> int \<times> 'v option" where
  "prepare_recv (agreed, highest, nv) rsp =
     (if prsp_Code rsp = ErrOK then
        (if prsp_Stamp rsp > highest
         then (agreed + 1, prsp_Stamp rsp, prsp_Value rsp)
         else (agreed + 1, highest, nv))
      else (agreed, highest, nv))"

definition sendPrepare ::
  "'v Paxos \<Rightarrow> int \<Rightarrow> (nat \<Rightarrow> 'v PrepareRsp option) \<Rightarrow> bool \<times> int \<times> 'v option" where
  "sendPrepare px timestamp ch =
     (case foldl prepare_recv (0, 0, None) (prepare_replies px ch) of
        (agreed, highest, nv) \<Rightarrow>
          if agreed \<le> int (length (peers px)) div 2 then (False, timestamp, nv)
          else (True, timestamp, nv))"

definition commit_recv :: "int \<Rightarrow> CommitRsp \<Rightarrow> int" where
  "commit_recv accept rsp = (if crsp_Code rsp = ErrOK then accept + 1 else accept)"

definition sendCommit :: "'v Paxos \<Rightarrow> (nat \<Rightarrow> CommitRsp option) \<Rightarrow> bool" where
  "sendCommit px ch =
     (let accept = foldl commit_recv 0 (commit_replies px ch)
      in if accept \<le> int (length (peers px)) div 2 then False else True)"

text \<open>
  The loop of \<^verbatim>\<open>Start\<close>.  The variable \<^verbatim>\<open>v\<close> is the parameter of \<^verbatim>\<open>Start\<close>,
  captured by the goroutine and assigned in the loop body, so it is the state of the
  loop.  One turn of the loop reads what its two broadcasts receive; it ends in
  \<^verbatim>\<open>continue\<close> or, after \<^verbatim>\<open>sendDecision(seq, v)\<close>, in \<^verbatim>\<open>break\<close>, in both cases
  with the current \<^verbatim>\<open>v\<close>.
\<close>

record 'v round =
  now :: int
  prepare_ch :: "nat \<Rightarrow> 'v PrepareRsp option"
  commit_ch :: "nat \<Rightarrow> CommitRsp option"

datatype 'v iteration = Continue "'v option" | Break "'v option"

fun candidate :: "'v iteration \<Rightarrow> 'v option" where
  "candidate (Continue v) = v"
| "candidate (Break v) = v"

definition Start_body :: "'v Paxos \<Rightarrow> 'v option \<Rightarrow> 'v round \<Rightarrow> 'v iteration" where
  "Start_body px v r =
     (case sendPrepare px (now r) (prepare_ch r) of
        (ok, t, nv) \<Rightarrow>
          if \<not> ok then Continue v
          else (let v' = (if nv \<noteq> None then nv else v)
                in if \<not> sendCommit px (commit_ch r) then Continue v' else Break v'))"

text \<open>
  The loop has no bound.  It is run on the list of the rounds the environment provides;
  \<open>None\<close> says that the loop is still running when the list ends, \<open>Some v\<close> that it
  left through \<^verbatim>\<open>break\<close> after broadcasting the decision \<open>v\<close>.
\<close>

fun Start_loop :: "'v Paxos \<Rightarrow> 'v option \<Rightarrow> 'v round list \<Rightarrow> 'v option option" where
  "Start_loop px v [] = None"
| "Start_loop px v (r # rs) =
     (case Start_body px v r of
        Continue v' \<Rightarrow> Start_loop px v' rs
      | Break v' \<Rightarrow> Some v')"

text \<open>
  \<^verbatim>\<open>Start\<close> itself: the call of \<^verbatim>\<open>px.Min()\<close>, with its evictions, and the guard;
  \<open>None\<close> in the second component says that no proposer was started.
\<close>

definition Start ::
  "int \<Rightarrow> 'v option \<Rightarrow> 'v round list \<Rightarrow> 'v Paxos \<Rightarrow> 'v Paxos \<times> 'v option option option" where
  "Start seq v rs px =
     (case MinP px of
        (px', m) \<Rightarrow> if seq < m then (px', None) else (px', Some (Start_loop px' v rs)))"

text \<open>
  The replies of a broadcast that count as votes: those with code \<^verbatim>\<open>ErrOK\<close>, in the
  order in which the loop receives them.
\<close>

definition prepare_oks :: "'v Paxos \<Rightarrow> (nat \<Rightarrow> 'v PrepareRsp option) \<Rightarrow> 'v PrepareRsp list" where
  "prepare_oks px ch = filter (\<lambda>rsp. prsp_Code rsp = ErrOK) (prepare_replies px ch)"

definition commit_oks :: "'v Paxos \<Rightarrow> (nat \<Rightarrow> CommitRsp option) \<Rightarrow> CommitRsp list" where
  "commit_oks px ch = filter (\<lambda>rsp. crsp_Code rsp = ErrOK) (commit_replies px ch)"

section \<open>Example states\<close>

definition ex_px :: "nat Paxos" where
  "ex_px = \<lparr>peers = [''a'', ''b'', ''c''], me = 0,
     instances = [3 \<mapsto> \<lparr>status = StateUndecided, val = Some 7, platest = 10, alatest = 4\<rparr>,
                  5 \<mapsto> \<lparr>status = StateDecided, val = Some 8, platest = 20, alatest = 20\<rparr>],
     dones = [- 1, 6, - 1]\<rparr>"

definition ex_peers :: "nat Paxos" where
  "ex_peers = Make [''a'', ''b'', ''c''] 0"

text \<open>
  A round in which the prepare broadcast reaches quorum and reports the accepted value
  \<open>2\<close>, and the accept broadcast does not reach quorum; then a round in which no
  reply carries a value and both broadcasts reach quorum.
\<close>

definition ex_round1 :: "nat round" where
  "ex_round1 = \<lparr>now = 10,
     prepare_ch = (!) [Some \<lparr>prsp_Code = ErrOK, prsp_Value = Some 2, prsp_Stamp = 9\<rparr>,
                       Some \<lparr>prsp_Code = ErrOK, prsp_Value = None, prsp_Stamp = 0\<rparr>,
                       None],
     commit_ch = (!) [Some \<lparr>crsp_Code = ErrRejected\<rparr>, Some \<lparr>crsp_Code = ErrRejected\<rparr>, None]\<rparr>"

definition ex_round2 :: "nat round" where
  "ex_round2 = \<lparr>now = 11,
     prepare_ch = (!) [Some \<lparr>prsp_Code = ErrOK, prsp_Value = None, prsp_Stamp = 0\<rparr>,
                       Some \<lparr>prsp_Code = ErrOK, prsp_Value = None, prsp_Stamp = 0\<rparr>,
                       None],
     commit_ch = (!) [Some \<lparr>crsp_Code = ErrOK\<rparr>, Some \<lparr>crsp_Code = ErrOK\<rparr>, None]\<rparr>"

text \<open>
  A round whose prepare replies carry two accepted values: the rejecting reply has the
  highest stamp and does not count.
\<close>

definition ex_round3 :: "nat round" where
  "ex_round3 = \<lparr>now = 40,
     prepare_ch = (!) [Some \<lparr>prsp_Code = ErrOK, prsp_Value = Some 5, prsp_Stamp = 4\<rparr>,
                       Some \<lparr>prsp_Code = ErrRejected, prsp_Value = Some 8, prsp_Stamp = 50\<rparr>,
                       Some \<lparr>prsp_Code = ErrOK, prsp_Value = Some 6, prsp_Stamp = 9\<rparr>],
     commit_ch = (!) [Some \<lparr>crsp_Code = ErrOK\<rparr>, Some \<lparr>crsp_Code = ErrOK\<rparr>, None]\<rparr>"

text \<open>
  A single peer that has served \<^verbatim>\<open>AcceptCommit\<close> for the value \<open>5\<close> at stamp \<open>10\<close>
  on a sequence number without an instance, and the round of a proposer on that peer at
  stamp \<open>20\<close>: the prepare reply is the one its own handler gives.
\<close>

definition ex_single :: "nat Paxos" where
  "ex_single = fst (AcceptCommit \<lparr>creq_Seq = 0, creq_Value = Some 5, creq_Stamp = 10\<rparr>
                      (Make [''a''] 0))"

definition ex_round5 :: "nat round" where
  "ex_round5 = \<lparr>now = 20,
     prepare_ch = (!) [Some (snd (AcceptPrepare \<lparr>preq_Seq = 0, preq_Stamp = 20\<rparr> ex_single))],
     commit_ch = (!) [Some \<lparr>crsp_Code = ErrOK\<rparr>]\<rparr>"

text \<open>
  The same round with the reply the peer would give had the instance been created with
  the accepted stamp 10, as the branch of \<^verbatim>\<open>AcceptCommit\<close> for an existing instance
  stores it.
\<close>

definition ex_round7 :: "nat round" where
  "ex_round7 = \<lparr>now = 20,
     prepare_ch = (!) [Some \<lparr>prsp_Code = ErrOK, prsp_Value = Some 5, prsp_Stamp = 10\<rparr>],
     commit_ch = (!) [Some \<lparr>crsp_Code = ErrOK\<rparr>]\<rparr>"

text \<open>Four peers, and a round with two votes of four in each broadcast.\<close>

definition ex_peers4 :: "nat Paxos" where
  "ex_peers4 = Make [''a'', ''b'', ''c'', ''d''] 0"

definition ex_round6 :: "nat round" where
  "ex_round6 = \<lparr>now = 7,
     prepare_ch = (!) [Some \<lparr>prsp_Code = ErrOK, prsp_Value = None, prsp_Stamp = 0\<rparr>, None,
                       Some \<lparr>prsp_Code = ErrOK, prsp_Value = None, prsp_Stamp = 0\<rparr>,
                       Some \<lparr>prsp_Code = ErrRejected, prsp_Value = None, prsp_Stamp = 0\<rparr>],
     commit_ch = (!) [Some \<lparr>crsp_Code = ErrOK\<rparr>, None, Some \<lparr>crsp_Code = ErrOK\<rparr>,
                      Some \<lparr>crsp_Code = ErrRejected\<rparr>]\<rparr>"

text \<open>
  A single peer whose watermark entry and decided instance lie at and just below
  \<open>2\<^sup>3\<^sup>1\<close>.
\<close>

definition ex_big :: "nat Paxos" where
  "ex_big = \<lparr>peers = [''a''], me = 0,
     instances = [2147483647 \<mapsto> \<lparr>status = StateDecided, val = Some 1, platest = 0, alatest = 0\<rparr>],
     dones = [2147483648]\<rparr>"

section \<open>Facts about the example states\<close>

lemma ex_px_simps:
  "instances ex_px 3 = Some \<lparr>status = StateUndecided, val = Some 7, platest = 10, alatest = 4\<rparr>"
  "instances ex_px 5 = Some \<lparr>status = StateDecided, val = Some 8, platest = 20, alatest = 20\<rparr>"
  "dones ex_px = [- 1, 6, - 1]"
  by (simp_all add: ex_px_def)

lemma ex_peers_simps: "peers ex_peers = [''a'', ''b'', ''c'']"
  by (simp add: ex_peers_def Make_def)

lemma ex_single_reply:
  "snd (AcceptPrepare \<lparr>preq_Seq = 0, preq_Stamp = 20\<rparr> ex_single)
     = \<lparr>prsp_Code = ErrOK, prsp_Value = Some 5, prsp_Stamp = 0\<rparr>"
  by (simp add: ex_single_def AcceptCommit_def AcceptPrepare_def Make_def)

lemma ex_single_peers: "peers ex_single = [''a'']"
  by (simp add: ex_single_def AcceptCommit_def Make_def)

section \<open>The acceptor: Prepare\<close>

text \<open>
  Claim C3.  A Prepare request for a sequence number that has an instance is accepted
  exactly when its stamp is at least the promised stamp \<open>platest\<close> (so an equal stamp is
  accepted), and is rejected exactly when its stamp is smaller; on accept the promise
  becomes the request's stamp and nothing else changes; and the reply carries the
  instance's \<open>val\<close> and \<open>alatest\<close> whether the request is accepted or rejected.
\<close>

theorem AcceptPrepare_existing:
  assumes "instances px (preq_Seq req) = Some inst"
  shows "(prsp_Code (snd (AcceptPrepare req px)) = ErrOK \<longleftrightarrow> platest inst \<le> preq_Stamp req)
       \<and> (prsp_Code (snd (AcceptPrepare req px)) = ErrRejected \<longleftrightarrow> preq_Stamp req < platest inst)
       \<and> (platest inst \<le> preq_Stamp req \<longrightarrow>
            fst (AcceptPrepare req px) =
              px\<lparr>instances := (instances px)(preq_Seq req \<mapsto> inst\<lparr>platest := preq_Stamp req\<rparr>)\<rparr>)
       \<and> (preq_Stamp req = platest inst \<longrightarrow> prsp_Code (snd (AcceptPrepare req px)) = ErrOK)
       \<and> prsp_Value (snd (AcceptPrepare req px)) = val inst
       \<and> prsp_Stamp (snd (AcceptPrepare req px)) = alatest inst"
  using assms by (simp add: AcceptPrepare_def Let_def)

text \<open>
  On \<open>ex_px\<close>, whose instance 3 has promised stamp 10: a request with stamp 10 is
  accepted, one with stamp 9 is rejected, and both replies carry the accepted pair
  \<open>(7, 4)\<close>.
\<close>

theorem AcceptPrepare_existing_witness:
  "instances ex_px (preq_Seq \<lparr>preq_Seq = 3, preq_Stamp = 10\<rparr>)
     = Some \<lparr>status = StateUndecided, val = Some 7, platest = 10, alatest = 4\<rparr>
   \<and> platest \<lparr>status = StateUndecided, val = Some (7::nat), platest = 10, alatest = 4\<rparr>
       \<le> preq_Stamp \<lparr>preq_Seq = 3, preq_Stamp = 10\<rparr>
   \<and> snd (AcceptPrepare \<lparr>preq_Seq = 3, preq_Stamp = 10\<rparr> ex_px)
     = \<lparr>prsp_Code = ErrOK, prsp_Value = Some 7, prsp_Stamp = 4\<rparr>
   \<and> fst (AcceptPrepare \<lparr>preq_Seq = 3, preq_Stamp = 10\<rparr> ex_px)
     = ex_px\<lparr>instances := (instances ex_px)(3 \<mapsto>
          \<lparr>status = StateUndecided, val = Some 7, platest = 10, alatest = 4\<rparr>)\<rparr>
   \<and> snd (AcceptPrepare \<lparr>preq_Seq = 3, preq_Stamp = 9\<rparr> ex_px)
     = \<lparr>prsp_Code = ErrRejected, prsp_Value = Some 7, prsp_Stamp = 4\<rparr>"
proof -
  have h: "instances ex_px (preq_Seq \<lparr>preq_Seq = 3, preq_Stamp = 10\<rparr>)
     = Some \<lparr>status = StateUndecided, val = Some 7, platest = 10, alatest = 4\<rparr>"
    by (simp add: ex_px_simps)
  have h': "instances ex_px (preq_Seq \<lparr>preq_Seq = 3, preq_Stamp = 9\<rparr>)
     = Some \<lparr>status = StateUndecided, val = Some 7, platest = 10, alatest = 4\<rparr>"
    by (simp add: ex_px_simps)
  show ?thesis
    using h AcceptPrepare_existing [OF h] AcceptPrepare_existing [OF h']
    by (cases "snd (AcceptPrepare \<lparr>preq_Seq = 3, preq_Stamp = 10\<rparr> ex_px)";
        cases "snd (AcceptPrepare \<lparr>preq_Seq = 3, preq_Stamp = 9\<rparr> ex_px)") simp
qed

section \<open>The acceptor: Accept\<close>

text \<open>
  Claim C4.  An Accept request for a sequence number without an instance is to create the
  instance with the request's value and with the request's stamp as both the promised and
  the accepted stamp.  The code creates it with promised stamp \<open>platest = 10\<close> and
  accepted stamp \<open>alatest = 0\<close> for a request with stamp 10, where the branch for an
  existing instance stores the stamp in both fields; a later Prepare then reports the
  accepted value \<open>5\<close> with the accepted stamp 0.
\<close>

theorem AcceptCommit_fresh_instance:
  "instances (Make [''a'', ''b'', ''c''] 0 :: nat Paxos) 0 = None
   \<and> snd (AcceptCommit \<lparr>creq_Seq = 0, creq_Value = Some (5::nat), creq_Stamp = 10\<rparr>
            (Make [''a'', ''b'', ''c''] 0)) = \<lparr>crsp_Code = ErrOK\<rparr>
   \<and> instances (fst (AcceptCommit \<lparr>creq_Seq = 0, creq_Value = Some (5::nat), creq_Stamp = 10\<rparr>
                       (Make [''a'', ''b'', ''c''] 0))) 0
     = Some \<lparr>status = StateUndecided, val = Some 5, platest = 10, alatest = 0\<rparr>
   \<and> snd (AcceptPrepare \<lparr>preq_Seq = 0, preq_Stamp = 11\<rparr>
            (fst (AcceptCommit \<lparr>creq_Seq = 0, creq_Value = Some (5::nat), creq_Stamp = 10\<rparr>
                    (Make [''a'', ''b'', ''c''] 0))))
     = \<lparr>prsp_Code = ErrOK, prsp_Value = Some 5, prsp_Stamp = 0\<rparr>"
  by (simp add: AcceptCommit_def AcceptPrepare_def Make_def)

text \<open>
  Claim C10.  An Accept request for an instance that is already decided, with a stamp
  that is at least the promised stamp, succeeds: the instance keeps the status
  \<^verbatim>\<open>StateDecided\<close> and takes the request's value and, in both stamp fields, the
  request's stamp, so that \<^verbatim>\<open>Status\<close> reports the new value as decided.
\<close>

theorem AcceptCommit_on_decided:
  assumes "instances px (creq_Seq req) = Some inst"
    and "status inst = StateDecided"
    and "platest inst \<le> creq_Stamp req"
  shows "AcceptCommit req px =
           (px\<lparr>instances := (instances px)(creq_Seq req \<mapsto>
                  \<lparr>status = StateDecided, val = creq_Value req,
                   platest = creq_Stamp req, alatest = creq_Stamp req\<rparr>)\<rparr>,
            \<lparr>crsp_Code = ErrOK\<rparr>)
       \<and> Status (creq_Seq req) (fst (AcceptCommit req px)) = (True, creq_Value req)"
  using assms by (cases inst) (simp add: AcceptCommit_def Let_def Status_def)

text \<open>
  On \<open>ex_px\<close>, instance 5 is decided with value 8 and promised stamp 20; an Accept with
  value 9 and stamp 20 changes the decided value to 9.
\<close>

theorem AcceptCommit_on_decided_witness:
  "instances ex_px (creq_Seq \<lparr>creq_Seq = 5, creq_Value = Some 9, creq_Stamp = 20\<rparr>)
     = Some \<lparr>status = StateDecided, val = Some 8, platest = 20, alatest = 20\<rparr>
   \<and> status \<lparr>status = StateDecided, val = Some (8::nat), platest = 20, alatest = 20\<rparr> = StateDecided
   \<and> platest \<lparr>status = StateDecided, val = Some (8::nat), platest = 20, alatest = 20\<rparr>
       \<le> creq_Stamp \<lparr>creq_Seq = 5, creq_Value = Some (9::nat), creq_Stamp = 20\<rparr>
   \<and> Status 5 ex_px = (True, Some 8)
   \<and> Status 5 (fst (AcceptCommit \<lparr>creq_Seq = 5, creq_Value = Some 9, creq_Stamp = 20\<rparr> ex_px))
       = (True, Some 9)"
proof -
  have h1: "instances ex_px (creq_Seq \<lparr>creq_Seq = 5, creq_Value = Some 9, creq_Stamp = 20\<rparr>)
     = Some \<lparr>status = StateDecided, val = Some 8, platest = 20, alatest = 20\<rparr>"
    by (simp add: ex_px_simps)
  have h2: "status \<lparr>status = StateDecided, val = Some (8::nat), platest = 20, alatest = 20\<rparr>
     = StateDecided"
    by simp
  have h3: "platest \<lparr>status = StateDecided, val = Some (8::nat), platest = 20, alatest = 20\<rparr>
       \<le> creq_Stamp \<lparr>creq_Seq = 5, creq_Value = Some (9::nat), creq_Stamp = 20\<rparr>"
    by simp
  have h4: "Status 5 ex_px = (True, Some 8)"
    by (simp add: Status_def ex_px_simps)
  from AcceptCommit_on_decided [OF h1 h2 h3, THEN conjunct2] h1 h2 h3 h4
  show ?thesis by simp
qed

section \<open>The reject branches\<close>

text \<open>
  Claim C9.  A Prepare or an Accept request that is not accepted leaves the whole state
  of the peer, the instance table included, as it was: no instance is created and no
  field is written.  The reject branch is the one taken when the instance exists and the
  request's stamp is below its promised stamp.
\<close>

theorem reject_leaves_state:
  "(prsp_Code (snd (AcceptPrepare preq px)) \<noteq> ErrOK \<longrightarrow> fst (AcceptPrepare preq px) = px)
   \<and> (crsp_Code (snd (AcceptCommit creq px)) \<noteq> ErrOK \<longrightarrow> fst (AcceptCommit creq px) = px)
   \<and> (\<forall>inst. instances px (preq_Seq preq) = Some inst \<and> preq_Stamp preq < platest inst \<longrightarrow>
         AcceptPrepare preq px
           = (px, \<lparr>prsp_Code = ErrRejected, prsp_Value = val inst, prsp_Stamp = alatest inst\<rparr>))
   \<and> (\<forall>inst. instances px (creq_Seq creq) = Some inst \<and> creq_Stamp creq < platest inst \<longrightarrow>
         AcceptCommit creq px = (px, \<lparr>crsp_Code = ErrRejected\<rparr>))"
  by (simp add: AcceptPrepare_def AcceptCommit_def Let_def split: option.splits)

text \<open>
  On \<open>ex_px\<close>, a Prepare and an Accept with stamp 9 for instance 3, whose promised
  stamp is 10, are rejected and return \<open>ex_px\<close> itself.
\<close>

theorem reject_leaves_state_witness:
  "instances ex_px (preq_Seq \<lparr>preq_Seq = 3, preq_Stamp = 9\<rparr>)
     = Some \<lparr>status = StateUndecided, val = Some 7, platest = 10, alatest = 4\<rparr>
   \<and> preq_Stamp \<lparr>preq_Seq = 3, preq_Stamp = 9\<rparr>
       < platest \<lparr>status = StateUndecided, val = Some (7::nat), platest = 10, alatest = 4\<rparr>
   \<and> prsp_Code (snd (AcceptPrepare \<lparr>preq_Seq = 3, preq_Stamp = 9\<rparr> ex_px)) \<noteq> ErrOK
   \<and> AcceptPrepare \<lparr>preq_Seq = 3, preq_Stamp = 9\<rparr> ex_px
       = (ex_px, \<lparr>prsp_Code = ErrRejected, prsp_Value = Some 7, prsp_Stamp = 4\<rparr>)
   \<and> crsp_Code (snd (AcceptCommit \<lparr>creq_Seq = 3, creq_Value = Some 1, creq_Stamp = 9\<rparr> ex_px))
       \<noteq> ErrOK
   \<and> AcceptCommit \<lparr>creq_Seq = 3, creq_Value = Some 1, creq_Stamp = 9\<rparr> ex_px
       = (ex_px, \<lparr>crsp_Code = ErrRejected\<rparr>)"
proof -
  have h1: "instances ex_px (preq_Seq \<lparr>preq_Seq = 3, preq_Stamp = 9\<rparr>)
       = Some \<lparr>status = StateUndecided, val = Some 7, platest = 10, alatest = 4\<rparr>
     \<and> preq_Stamp \<lparr>preq_Seq = 3, preq_Stamp = 9\<rparr>
       < platest \<lparr>status = StateUndecided, val = Some (7::nat), platest = 10, alatest = 4\<rparr>"
    by (simp add: ex_px_simps)
  have h2: "instances ex_px (creq_Seq \<lparr>creq_Seq = 3, creq_Value = Some 1, creq_Stamp = 9\<rparr>)
       = Some \<lparr>status = StateUndecided, val = Some 7, platest = 10, alatest = 4\<rparr>
     \<and> creq_Stamp \<lparr>creq_Seq = 3, creq_Value = Some (1::nat), creq_Stamp = 9\<rparr>
       < platest \<lparr>status = StateUndecided, val = Some (7::nat), platest = 10, alatest = 4\<rparr>"
    by (simp add: ex_px_simps)
  note r = reject_leaves_state [of "\<lparr>preq_Seq = 3, preq_Stamp = 9\<rparr>" ex_px
      "\<lparr>creq_Seq = 3, creq_Value = Some 1, creq_Stamp = 9\<rparr>"]
  from r h1 have p: "AcceptPrepare \<lparr>preq_Seq = 3, preq_Stamp = 9\<rparr> ex_px
       = (ex_px, \<lparr>prsp_Code = ErrRejected, prsp_Value = Some 7, prsp_Stamp = 4\<rparr>)"
    by fastforce
  from r h2 have c: "AcceptCommit \<lparr>creq_Seq = 3, creq_Value = Some 1, creq_Stamp = 9\<rparr> ex_px
       = (ex_px, \<lparr>crsp_Code = ErrRejected\<rparr>)"
    by fastforce
  from h1 p c show ?thesis by simp
qed

section \<open>The acceptor: Decide\<close>

text \<open>
  Claim C6.  A Decide request whose sender index is an index of the watermark array is
  served without any comparison of stamps: whatever the instance table holds for the
  sequence number, afterwards it holds an instance with status \<^verbatim>\<open>StateDecided\<close> and
  the request's value, the other instances are untouched, and the watermark entry of the
  sender is the request's watermark, whether that raises or lowers the entry.
\<close>

theorem AcceptDecided_unconditional:
  assumes "0 \<le> dreq_Svrid req" and "dreq_Svrid req < int (length (dones px))"
  shows "\<exists>px'. AcceptDecided req px = Inr px'
     \<and> (\<exists>inst. instances px' (dreq_Seq req) = Some inst
            \<and> status inst = StateDecided \<and> val inst = dreq_Value req)
     \<and> (\<forall>seq. seq \<noteq> dreq_Seq req \<longrightarrow> instances px' seq = instances px seq)
     \<and> dones px' = (dones px)[nat (dreq_Svrid req) := dreq_Done req]
     \<and> dones px' ! nat (dreq_Svrid req) = dreq_Done req"
  using assms by (auto simp add: AcceptDecided_def Let_def split: option.splits)

text \<open>
  On \<open>ex_px\<close>, instance 3 is undecided with promised stamp 10 and the entry of peer 1 is
  6; a Decide from peer 1 with watermark 2 decides the instance and lowers the entry.
\<close>

theorem AcceptDecided_unconditional_witness:
  "0 \<le> dreq_Svrid \<lparr>dreq_Seq = 3, dreq_Value = Some (1::nat), dreq_Svrid = 1, dreq_Done = 2\<rparr>
   \<and> dreq_Svrid \<lparr>dreq_Seq = 3, dreq_Value = Some (1::nat), dreq_Svrid = 1, dreq_Done = 2\<rparr>
       < int (length (dones ex_px))
   \<and> (5::int) \<noteq> dreq_Seq \<lparr>dreq_Seq = 3, dreq_Value = Some (1::nat), dreq_Svrid = 1, dreq_Done = 2\<rparr>
   \<and> (\<exists>px'. AcceptDecided \<lparr>dreq_Seq = 3, dreq_Value = Some 1, dreq_Svrid = 1, dreq_Done = 2\<rparr> ex_px
              = Inr px'
        \<and> instances px' 3
            = Some \<lparr>status = StateDecided, val = Some 1, platest = 10, alatest = 4\<rparr>
        \<and> instances px' 5 = instances ex_px 5
        \<and> dones ex_px = [- 1, 6, - 1]
        \<and> dones px' = [- 1, 2, - 1])"
proof -
  have h1: "0 \<le> dreq_Svrid \<lparr>dreq_Seq = 3, dreq_Value = Some (1::nat), dreq_Svrid = 1, dreq_Done = 2\<rparr>"
    by simp
  have h2: "dreq_Svrid \<lparr>dreq_Seq = 3, dreq_Value = Some (1::nat), dreq_Svrid = 1, dreq_Done = 2\<rparr>
       < int (length (dones ex_px))"
    by (simp add: ex_px_simps)
  from AcceptDecided_unconditional [OF h1 h2] obtain px' where
    "AcceptDecided \<lparr>dreq_Seq = 3, dreq_Value = Some 1, dreq_Svrid = 1, dreq_Done = 2\<rparr> ex_px = Inr px'"
    by blast
  then show ?thesis
    using h1 h2 by (auto simp add: AcceptDecided_def ex_px_simps)
qed

section \<open>Decided instances under the handlers\<close>

lemma Status_decided:
  "fst (Status seq px) \<longleftrightarrow> (\<exists>inst. instances px seq = Some inst \<and> status inst = StateDecided)"
  by (simp add: Status_def split: option.splits)

lemma AcceptPrepare_keeps_decided:
  assumes "instances px seq = Some inst" and "status inst = StateDecided"
  shows "\<exists>inst'. instances (fst (AcceptPrepare req px)) seq = Some inst'
            \<and> status inst' = StateDecided"
  using assms by (auto simp add: AcceptPrepare_def Let_def split: option.splits)

lemma AcceptCommit_keeps_decided:
  assumes "instances px seq = Some inst" and "status inst = StateDecided"
  shows "\<exists>inst'. instances (fst (AcceptCommit req px)) seq = Some inst'
            \<and> status inst' = StateDecided"
  using assms by (auto simp add: AcceptCommit_def Let_def split: option.splits)

lemma AcceptDecided_keeps_decided:
  assumes "instances px seq = Some inst" and "status inst = StateDecided"
    and "AcceptDecided req px = Inr px'"
  shows "\<exists>inst'. instances px' seq = Some inst' \<and> status inst' = StateDecided"
  using assms by (auto simp add: AcceptDecided_def Let_def split: option.splits if_splits)

lemma handle_keeps_decided:
  assumes "fst (Status seq px)" and "handle m px = Inr px'"
  shows "fst (Status seq px')"
proof -
  from assms(1) obtain inst where i: "instances px seq = Some inst" "status inst = StateDecided"
    by (auto simp add: Status_decided)
  show ?thesis
  proof (cases m)
    case (Prepare req)
    with assms(2) have "px' = fst (AcceptPrepare req px)" by (simp add: handle_def)
    with AcceptPrepare_keeps_decided [OF i] show ?thesis by (simp add: Status_decided)
  next
    case (Accept req)
    with assms(2) have "px' = fst (AcceptCommit req px)" by (simp add: handle_def)
    with AcceptCommit_keeps_decided [OF i] show ?thesis by (simp add: Status_decided)
  next
    case (Decide req)
    with assms(2) have "AcceptDecided req px = Inr px'" by (simp add: handle_def)
    from AcceptDecided_keeps_decided [OF i this] show ?thesis by (simp add: Status_decided)
  qed
qed

text \<open>
  Claim C8.  Under any sequence of Prepare, Accept and Decide requests served by a peer,
  an instance that is decided stays decided: the instance is still in the table after
  the run and its status is \<^verbatim>\<open>StateDecided\<close>.  (The handlers never remove an instance;
  \<^verbatim>\<open>Min\<close>, which is no handler, does.)
\<close>

theorem decided_never_reverts:
  assumes "fst (Status seq px)" and "handle_all ms px = Inr px'"
  shows "fst (Status seq px')"
  using assms
proof (induction ms arbitrary: px)
  case Nil
  then show ?case by simp
next
  case (Cons m ms)
  from Cons.prems(2) obtain px1 where
    s: "handle m px = Inr px1" and r: "handle_all ms px1 = Inr px'"
    by (auto split: sum.splits)
  from handle_keeps_decided [OF Cons.prems(1) s] have "fst (Status seq px1)" .
  from Cons.IH [OF this r] show ?case .
qed

text \<open>
  On \<open>ex_px\<close>, instance 5 is decided; a Prepare and an Accept for it and a Decide for
  instance 3 are served, and instance 5 is decided afterwards.
\<close>

theorem decided_never_reverts_witness:
  "fst (Status 5 ex_px)
   \<and> handle_all [Prepare \<lparr>preq_Seq = 5, preq_Stamp = 30\<rparr>,
                  Accept \<lparr>creq_Seq = 5, creq_Value = Some 9, creq_Stamp = 30\<rparr>,
                  Decide \<lparr>dreq_Seq = 3, dreq_Value = Some 1, dreq_Svrid = 2, dreq_Done = 0\<rparr>] ex_px
       = Inr (ex_px\<lparr>instances :=
                [3 \<mapsto> \<lparr>status = StateDecided, val = Some 1, platest = 10, alatest = 4\<rparr>,
                 5 \<mapsto> \<lparr>status = StateDecided, val = Some 9, platest = 30, alatest = 30\<rparr>],
              dones := [- 1, 6, 0]\<rparr>)
   \<and> fst (Status 5 (ex_px\<lparr>instances :=
                [3 \<mapsto> \<lparr>status = StateDecided, val = Some 1, platest = 10, alatest = 4\<rparr>,
                 5 \<mapsto> \<lparr>status = StateDecided, val = Some 9, platest = 30, alatest = 30\<rparr>],
              dones := [- 1, 6, 0]\<rparr>))"
proof -
  have h1: "fst (Status 5 ex_px)"
    by (simp add: Status_def ex_px_simps)
  have h2: "handle_all [Prepare \<lparr>preq_Seq = 5, preq_Stamp = 30\<rparr>,
                  Accept \<lparr>creq_Seq = 5, creq_Value = Some 9, creq_Stamp = 30\<rparr>,
                  Decide \<lparr>dreq_Seq = 3, dreq_Value = Some 1, dreq_Svrid = 2, dreq_Done = 0\<rparr>] ex_px
       = Inr (ex_px\<lparr>instances :=
                [3 \<mapsto> \<lparr>status = StateDecided, val = Some 1, platest = 10, alatest = 4\<rparr>,
                 5 \<mapsto> \<lparr>status = StateDecided, val = Some 9, platest = 30, alatest = 30\<rparr>],
              dones := [- 1, 6, 0]\<rparr>)"
    by (simp add: handle_def AcceptPrepare_def AcceptCommit_def AcceptDecided_def ex_px_def
        fun_upd_twist)
  from decided_never_reverts [OF h1 h2] h1 h2 show ?thesis by simp
qed

section \<open>The quorum rule\<close>

lemma prepare_recv_count:
  "fst (foldl prepare_recv s rs) = fst s + int (length (filter (\<lambda>rsp. prsp_Code rsp = ErrOK) rs))"
proof (induction rs arbitrary: s)
  case Nil
  then show ?case by simp
next
  case (Cons r rs)
  obtain a h nv where s: "s = (a, h, nv)" by (cases s)
  show ?case unfolding s by (simp add: Cons.IH)
qed

lemma commit_recv_count:
  "foldl commit_recv a rs = a + int (length (filter (\<lambda>rsp. crsp_Code rsp = ErrOK) rs))"
  by (induction rs arbitrary: a) (simp_all add: commit_recv_def)

lemma sendPrepare_ok:
  "fst (sendPrepare px ts ch) \<longleftrightarrow> int (length (peers px)) div 2 < int (length (prepare_oks px ch))"
proof -
  obtain a h nv where f: "foldl prepare_recv (0, 0, None) (prepare_replies px ch) = (a, h, nv)"
    by (cases "foldl prepare_recv (0, 0, None) (prepare_replies px ch)")
  from prepare_recv_count [of "(0, 0, None)" "prepare_replies px ch"] f
  have "a = int (length (prepare_oks px ch))" by (simp add: prepare_oks_def)
  with f show ?thesis by (simp add: sendPrepare_def)
qed

lemma sendCommit_ok:
  "sendCommit px ch \<longleftrightarrow> int (length (peers px)) div 2 < int (length (commit_oks px ch))"
  by (simp add: sendCommit_def Let_def commit_recv_count commit_oks_def)

lemma Start_body_prepare_failed:
  "\<not> fst (sendPrepare px (now r) (prepare_ch r)) \<Longrightarrow> Start_body px v r = Continue v"
  by (cases "sendPrepare px (now r) (prepare_ch r)") (simp add: Start_body_def)

lemma Start_body_commit_failed:
  "\<not> sendCommit px (commit_ch r) \<Longrightarrow> \<exists>v'. Start_body px v r = Continue v'"
  by (cases "sendPrepare px (now r) (prepare_ch r)") (simp add: Start_body_def Let_def)

text \<open>
  Claim C5.  With \<open>n\<close> peers, the prepare broadcast and the accept broadcast each
  succeed exactly when the number of \<^verbatim>\<open>ErrOK\<close> replies is greater than \<open>n div 2\<close>,
  which is to say at least \<open>n div 2 + 1\<close>; with exactly \<open>n div 2\<close> such replies in
  either broadcast the turn of the loop ends in \<^verbatim>\<open>continue\<close>, that is, the round is
  dropped and the loop starts the next one.
\<close>

theorem quorum_strict_majority:
  "(fst (sendPrepare px ts pch) \<longleftrightarrow>
      int (length (peers px)) div 2 < int (length (prepare_oks px pch)))
   \<and> (sendCommit px cch \<longleftrightarrow>
      int (length (peers px)) div 2 < int (length (commit_oks px cch)))
   \<and> (fst (sendPrepare px ts pch) \<longleftrightarrow>
      length (peers px) div 2 + 1 \<le> length (prepare_oks px pch))
   \<and> (sendCommit px cch \<longleftrightarrow>
      length (peers px) div 2 + 1 \<le> length (commit_oks px cch))
   \<and> (length (prepare_oks px (prepare_ch r)) = length (peers px) div 2 \<longrightarrow>
        Start_body px v r = Continue v)
   \<and> (length (commit_oks px (commit_ch r)) = length (peers px) div 2 \<longrightarrow>
        (\<exists>v'. Start_body px v r = Continue v'))"
proof -
  have d: "int (length (peers px)) div 2 = int (length (peers px) div 2)"
    by simp
  have p: "fst (sendPrepare px ts pch) \<longleftrightarrow>
      length (peers px) div 2 + 1 \<le> length (prepare_oks px pch)"
    unfolding sendPrepare_ok d by linarith
  have c: "sendCommit px cch \<longleftrightarrow>
      length (peers px) div 2 + 1 \<le> length (commit_oks px cch)"
    unfolding sendCommit_ok d by linarith
  have pr: "Start_body px v r = Continue v"
    if "length (prepare_oks px (prepare_ch r)) = length (peers px) div 2"
  proof -
    from that have "\<not> fst (sendPrepare px (now r) (prepare_ch r))"
      unfolding sendPrepare_ok d by simp
    then show ?thesis by (rule Start_body_prepare_failed)
  qed
  have cr: "\<exists>v'. Start_body px v r = Continue v'"
    if "length (commit_oks px (commit_ch r)) = length (peers px) div 2"
  proof -
    from that have "\<not> sendCommit px (commit_ch r)"
      unfolding sendCommit_ok d by simp
    then show ?thesis by (rule Start_body_commit_failed)
  qed
  from p c pr cr sendPrepare_ok [of px ts pch] sendCommit_ok [of px cch]
  show ?thesis by blast
qed

text \<open>
  With four peers, two votes are \<open>4 div 2\<close> and not a quorum, in the prepare broadcast
  and in the accept broadcast of \<open>ex_round6\<close>.
\<close>

theorem quorum_strict_majority_witness:
  "length (prepare_oks ex_peers4 (prepare_ch ex_round6)) = length (peers ex_peers4) div 2
   \<and> length (commit_oks ex_peers4 (commit_ch ex_round6)) = length (peers ex_peers4) div 2
   \<and> \<not> fst (sendPrepare ex_peers4 (now ex_round6) (prepare_ch ex_round6))
   \<and> \<not> sendCommit ex_peers4 (commit_ch ex_round6)
   \<and> Start_body ex_peers4 (Some 1) ex_round6 = Continue (Some 1)"
proof -
  have h: "length (prepare_oks ex_peers4 (prepare_ch ex_round6)) = length (peers ex_peers4) div 2"
    by (simp add: prepare_oks_def prepare_replies_def prepare_reply_def Make_def
        ex_peers4_def ex_round6_def upt_rec)
  have h': "length (commit_oks ex_peers4 (commit_ch ex_round6)) = length (peers ex_peers4) div 2"
    by (simp add: commit_oks_def commit_replies_def commit_reply_def Make_def
        ex_peers4_def ex_round6_def upt_rec)
  from quorum_strict_majority [of ex_peers4 "now ex_round6" "prepare_ch ex_round6"
      "commit_ch ex_round6" ex_round6 "Some 1"] h h'
  show ?thesis by simp
qed

section \<open>The value a proposer adopts\<close>

lemma find_snoc:
  "List.find P (xs @ [x]) =
     (case List.find P xs of None \<Rightarrow> (if P x then Some x else None) | Some y \<Rightarrow> Some y)"
  by (induction xs) simp_all

text \<open>
  The invariant of the receiving loop of \<^verbatim>\<open>sendPrepare\<close>: \<^verbatim>\<open>highest\<close> bounds the
  stamps of the votes received so far, and \<^verbatim>\<open>nv\<close> is \<^verbatim>\<open>nil\<close> while \<^verbatim>\<open>highest\<close>
  is 0 and afterwards the value of the first vote whose stamp is \<^verbatim>\<open>highest\<close>.
\<close>

lemma prepare_recv_highest:
  assumes "foldl prepare_recv (0, 0, None) rs = (a, h, nv)"
  shows "0 \<le> h
     \<and> (\<forall>x\<in>set (filter (\<lambda>rsp. prsp_Code rsp = ErrOK) rs). prsp_Stamp x \<le> h)
     \<and> (h = 0 \<longrightarrow> nv = None)
     \<and> (0 < h \<longrightarrow> (\<exists>x. List.find (\<lambda>rsp. prsp_Stamp rsp = h)
                              (filter (\<lambda>rsp. prsp_Code rsp = ErrOK) rs) = Some x
                        \<and> nv = prsp_Value x))"
  using assms
proof (induction rs arbitrary: a h nv rule: rev_induct)
  case Nil
  then show ?case by simp
next
  case (snoc r rs)
  obtain a0 h0 nv0 where f: "foldl prepare_recv (0, 0, None) rs = (a0, h0, nv0)"
    by (cases "foldl prepare_recv (0, 0, None) rs")
  note ih = snoc.IH [OF f]
  from snoc.prems f have step: "prepare_recv (a0, h0, nv0) r = (a, h, nv)" by simp
  show ?case
  proof (cases "prsp_Code r = ErrOK")
    case False
    with step have "h = h0" "nv = nv0" by simp_all
    with ih False show ?thesis by simp
  next
    case ok: True
    show ?thesis
    proof (cases "h0 < prsp_Stamp r")
      case True
      with step ok have e: "h = prsp_Stamp r" "nv = prsp_Value r" by simp_all
      from ih True have none: "List.find (\<lambda>rsp. prsp_Stamp rsp = prsp_Stamp r)
          (filter (\<lambda>rsp. prsp_Code rsp = ErrOK) rs) = None"
        by (auto simp add: find_None_iff)
      from ih True e ok none show ?thesis
        by (auto simp add: find_snoc)
    next
      case False
      with step ok have e: "h = h0" "nv = nv0" by simp_all
      from ih False e ok show ?thesis
        by (auto simp add: find_snoc)
    qed
  qed
qed

lemma sendPrepare_nv:
  assumes "sendPrepare px ts ch = (ok, t, nv)"
  shows "((\<exists>x\<in>set (prepare_oks px ch). 0 < prsp_Stamp x) \<longrightarrow>
           (\<exists>h. List.find (\<lambda>x. \<forall>y\<in>set (prepare_oks px ch). prsp_Stamp y \<le> prsp_Stamp x)
                   (prepare_oks px ch) = Some h \<and> nv = prsp_Value h))
       \<and> ((\<forall>x\<in>set (prepare_oks px ch). prsp_Stamp x \<le> 0) \<longrightarrow> nv = None)
       \<and> ((\<forall>x\<in>set (prepare_oks px ch). prsp_Value x = None) \<longrightarrow> nv = None)"
proof -
  obtain a h nv' where f: "foldl prepare_recv (0, 0, None) (prepare_replies px ch) = (a, h, nv')"
    by (cases "foldl prepare_recv (0, 0, None) (prepare_replies px ch)")
  with assms have nv: "nv' = nv" by (simp add: sendPrepare_def split: if_splits)
  note inv = prepare_recv_highest [OF f, folded prepare_oks_def, unfolded nv]
  have A: "\<exists>m. List.find (\<lambda>x. \<forall>y\<in>set (prepare_oks px ch). prsp_Stamp y \<le> prsp_Stamp x)
                   (prepare_oks px ch) = Some m \<and> nv = prsp_Value m"
    if "\<exists>x\<in>set (prepare_oks px ch). 0 < prsp_Stamp x"
  proof -
    from that inv have "0 < h" by fastforce
    with inv obtain m where
      m: "List.find (\<lambda>rsp. prsp_Stamp rsp = h) (prepare_oks px ch) = Some m" "nv = prsp_Value m"
      by blast
    have "List.find (\<lambda>x. \<forall>y\<in>set (prepare_oks px ch). prsp_Stamp y \<le> prsp_Stamp x)
            (prepare_oks px ch)
          = List.find (\<lambda>rsp. prsp_Stamp rsp = h) (prepare_oks px ch)"
    proof (rule find_cong [OF refl])
      fix x assume x: "x \<in> set (prepare_oks px ch)"
      from m(1) have mm: "m \<in> set (prepare_oks px ch)" "prsp_Stamp m = h"
        by (auto simp add: find_Some_iff)
      show "(\<forall>y\<in>set (prepare_oks px ch). prsp_Stamp y \<le> prsp_Stamp x) = (prsp_Stamp x = h)"
      proof
        assume "\<forall>y\<in>set (prepare_oks px ch). prsp_Stamp y \<le> prsp_Stamp x"
        with mm have "h \<le> prsp_Stamp x" by auto
        moreover from inv x have "prsp_Stamp x \<le> h" by blast
        ultimately show "prsp_Stamp x = h" by simp
      next
        assume "prsp_Stamp x = h"
        with inv show "\<forall>y\<in>set (prepare_oks px ch). prsp_Stamp y \<le> prsp_Stamp x" by blast
      qed
    qed
    with m show ?thesis by simp
  qed
  have B: "nv = None" if "\<forall>x\<in>set (prepare_oks px ch). prsp_Stamp x \<le> 0"
  proof (rule ccontr)
    assume "nv \<noteq> None"
    with inv have "0 < h" by force
    with inv obtain m where
      "List.find (\<lambda>rsp. prsp_Stamp rsp = h) (prepare_oks px ch) = Some m" by blast
    then have "m \<in> set (prepare_oks px ch)" "prsp_Stamp m = h"
      by (auto simp add: find_Some_iff)
    with that \<open>0 < h\<close> show False by force
  qed
  have C: "nv = None" if "\<forall>x\<in>set (prepare_oks px ch). prsp_Value x = None"
  proof (cases "0 < h")
    case True
    with inv obtain m where
      m: "List.find (\<lambda>rsp. prsp_Stamp rsp = h) (prepare_oks px ch) = Some m" "nv = prsp_Value m"
      by blast
    then have "m \<in> set (prepare_oks px ch)" by (auto simp add: find_Some_iff)
    with that m show ?thesis by simp
  next
    case False
    with inv show ?thesis by force
  qed
  from A B C show ?thesis by blast
qed

lemma Start_body_candidate:
  assumes "sendPrepare px (now r) (prepare_ch r) = (True, t, nv)"
  shows "candidate (Start_body px v r) = (case nv of None \<Rightarrow> v | Some w \<Rightarrow> Some w)"
  using assms by (simp add: Start_body_def Let_def split: option.splits)

text \<open>
  What the loop of \<^verbatim>\<open>Start\<close> does with the votes of a prepare broadcast that
  reaches quorum: if some vote reports an accepted stamp greater than 0, the candidate
  for the accept phase is the value carried by the first vote received among those with
  the highest accepted stamp, unless that value is \<^verbatim>\<open>nil\<close>, in which case the
  candidate is kept; and if no vote reports an accepted stamp greater than 0, or no vote
  carries a value, the candidate is kept.
\<close>

lemma Start_adopts_highest_positive:
  assumes "fst (sendPrepare px (now r) (prepare_ch r))"
  shows "((\<exists>x\<in>set (prepare_oks px (prepare_ch r)). 0 < prsp_Stamp x) \<longrightarrow>
           (\<exists>h. List.find (\<lambda>x. \<forall>y\<in>set (prepare_oks px (prepare_ch r)).
                                  prsp_Stamp y \<le> prsp_Stamp x)
                   (prepare_oks px (prepare_ch r)) = Some h
                \<and> candidate (Start_body px v r)
                    = (case prsp_Value h of None \<Rightarrow> v | Some w \<Rightarrow> Some w)))
       \<and> ((\<forall>x\<in>set (prepare_oks px (prepare_ch r)). prsp_Stamp x \<le> 0) \<longrightarrow>
            candidate (Start_body px v r) = v)
       \<and> ((\<forall>x\<in>set (prepare_oks px (prepare_ch r)). prsp_Value x = None) \<longrightarrow>
            candidate (Start_body px v r) = v)"
proof -
  from assms obtain t nv where s: "sendPrepare px (now r) (prepare_ch r) = (True, t, nv)"
    by (cases "sendPrepare px (now r) (prepare_ch r)") simp
  note c = Start_body_candidate [OF s, of v]
  from sendPrepare_nv [OF s] show ?thesis
    unfolding c by auto
qed

text \<open>
  When every vote carries a value exactly if its accepted stamp is greater than 0, which
  is what acceptors that record the stamp of every accepted value reply, the proposer
  does what the Paxos rule asks: in a broadcast with quorum in which some vote carries a
  value, the candidate becomes the value of the first vote with the highest accepted
  stamp, and otherwise the candidate is kept.
\<close>

lemma Start_adopts_highest_recorded:
  assumes q: "fst (sendPrepare px (now r) (prepare_ch r))"
    and wf: "\<forall>x\<in>set (prepare_oks px (prepare_ch r)). prsp_Value x \<noteq> None \<longleftrightarrow> 0 < prsp_Stamp x"
  shows "((\<exists>x\<in>set (prepare_oks px (prepare_ch r)). prsp_Value x \<noteq> None) \<longrightarrow>
           (\<exists>h. List.find (\<lambda>x. \<forall>y\<in>set (prepare_oks px (prepare_ch r)).
                                  prsp_Stamp y \<le> prsp_Stamp x)
                   (prepare_oks px (prepare_ch r)) = Some h
                \<and> candidate (Start_body px v r) = prsp_Value h))
       \<and> ((\<forall>x\<in>set (prepare_oks px (prepare_ch r)). prsp_Value x = None) \<longrightarrow>
            candidate (Start_body px v r) = v)"
proof -
  note g = Start_adopts_highest_positive [OF q, of v]
  have A: "\<exists>h. List.find (\<lambda>x. \<forall>y\<in>set (prepare_oks px (prepare_ch r)).
                                  prsp_Stamp y \<le> prsp_Stamp x)
                   (prepare_oks px (prepare_ch r)) = Some h
                \<and> candidate (Start_body px v r) = prsp_Value h"
    if "\<exists>x\<in>set (prepare_oks px (prepare_ch r)). prsp_Value x \<noteq> None"
  proof -
    from that wf obtain x where
      x: "x \<in> set (prepare_oks px (prepare_ch r))" "0 < prsp_Stamp x" by blast
    with g obtain h where
      h: "List.find (\<lambda>x. \<forall>y\<in>set (prepare_oks px (prepare_ch r)).
                                  prsp_Stamp y \<le> prsp_Stamp x)
                   (prepare_oks px (prepare_ch r)) = Some h"
         "candidate (Start_body px v r)
            = (case prsp_Value h of None \<Rightarrow> v | Some w \<Rightarrow> Some w)"
      by blast
    from h(1) have hm: "h \<in> set (prepare_oks px (prepare_ch r))"
      "\<forall>y\<in>set (prepare_oks px (prepare_ch r)). prsp_Stamp y \<le> prsp_Stamp h"
      by (auto simp add: find_Some_iff)
    with x have "0 < prsp_Stamp h" by force
    with wf hm(1) have "prsp_Value h \<noteq> None" by blast
    with h show ?thesis by (cases "prsp_Value h") auto
  qed
  from A g show ?thesis by blast
qed

text \<open>
  In \<open>ex_round3\<close> the votes carry \<open>(5, 4)\<close> and \<open>(6, 9)\<close>, a rejecting reply
  carries \<open>(8, 50)\<close>, and the candidate 1 becomes 6.
\<close>

lemma Start_adopts_highest_recorded_example:
  "fst (sendPrepare ex_peers (now ex_round3) (prepare_ch ex_round3))
   \<and> prepare_oks ex_peers (prepare_ch ex_round3)
       = [\<lparr>prsp_Code = ErrOK, prsp_Value = Some 5, prsp_Stamp = 4\<rparr>,
          \<lparr>prsp_Code = ErrOK, prsp_Value = Some 6, prsp_Stamp = 9\<rparr>]
   \<and> candidate (Start_body ex_peers (Some 1) ex_round3) = Some 6"
proof -
  have h: "fst (sendPrepare ex_peers (now ex_round3) (prepare_ch ex_round3))"
    by (simp add: sendPrepare_def prepare_replies_def prepare_reply_def
        ex_peers_simps ex_round3_def upt_rec)
  have oks: "prepare_oks ex_peers (prepare_ch ex_round3)
       = [\<lparr>prsp_Code = ErrOK, prsp_Value = Some 5, prsp_Stamp = 4\<rparr>,
          \<lparr>prsp_Code = ErrOK, prsp_Value = Some 6, prsp_Stamp = 9\<rparr>]"
    by (simp add: prepare_oks_def prepare_replies_def prepare_reply_def
        ex_peers_simps ex_round3_def upt_rec)
  have wf: "\<forall>x\<in>set (prepare_oks ex_peers (prepare_ch ex_round3)).
              prsp_Value x \<noteq> None \<longleftrightarrow> 0 < prsp_Stamp x"
    unfolding oks by simp
  from Start_adopts_highest_recorded [OF h wf, of "Some 1"]
  have "candidate (Start_body ex_peers (Some 1) ex_round3) = Some 6"
    unfolding oks by simp
  with h oks show ?thesis by simp
qed

text \<open>
  Claim C2.  In a prepare broadcast in which some vote carries a previously accepted
  value, the proposer is to replace its candidate by the value of the vote with the
  highest accepted stamp.  The code does not, on the single peer \<open>ex_single\<close>: the
  peer has accepted the value 5 through \<^verbatim>\<open>AcceptCommit\<close> on a sequence number without
  an instance, which records the accepted stamp 0 (claim C4); its vote in the prepare
  broadcast of \<open>ex_round5\<close> carries the value 5 with the stamp 0; the broadcast reaches
  quorum; and the receiving loop, which takes a value only from a vote whose stamp is
  greater than 0, leaves \<^verbatim>\<open>nv\<close> at \<^verbatim>\<open>nil\<close>, so the proposer sends and decides its
  own candidate 1.  With the accepted stamp 10 in the vote, as in \<open>ex_round7\<close>, the
  same loop adopts 5.
\<close>

theorem Start_ignores_accepted_value:
  "instances ex_single 0
     = Some \<lparr>status = StateUndecided, val = Some 5, platest = 10, alatest = 0\<rparr>
   \<and> prepare_oks ex_single (prepare_ch ex_round5)
     = [\<lparr>prsp_Code = ErrOK, prsp_Value = Some 5, prsp_Stamp = 0\<rparr>]
   \<and> sendPrepare ex_single (now ex_round5) (prepare_ch ex_round5) = (True, 20, None)
   \<and> Start_body ex_single (Some 1) ex_round5 = Break (Some 1)
   \<and> Start_loop ex_single (Some 1) [ex_round5] = Some (Some 1)
   \<and> Start_body ex_single (Some 1) ex_round7 = Break (Some 5)"
  by (simp add: Start_body_def sendPrepare_def sendCommit_def prepare_oks_def
      prepare_replies_def commit_replies_def prepare_reply_def commit_reply_def
      commit_recv_def ex_single_reply ex_single_peers ex_round5_def ex_round7_def
      upt_rec)
    (simp add: ex_single_def AcceptCommit_def Make_def)

section \<open>The candidate after a failed accept phase\<close>

text \<open>
  Claim C1, as stated: after an accept broadcast without quorum the proposer starts the
  next round with its candidate reset to the value \<open>v0\<close> given to \<^verbatim>\<open>Start\<close>.  It
  fails: in \<open>ex_round1\<close> the proposer, started with 1, adopts 2 from the prepare
  replies, its accept broadcast gets no vote, and the turn ends in \<^verbatim>\<open>continue\<close> with
  the candidate 2; in the next round no reply carries a value and the proposer decides
  2, where a proposer reset to 1 would have decided 1.
\<close>

theorem Start_reset_counterexample:
  "fst (sendPrepare ex_peers (now ex_round1) (prepare_ch ex_round1))
   \<and> \<not> sendCommit ex_peers (commit_ch ex_round1)
   \<and> Start_body ex_peers (Some 1) ex_round1 = Continue (Some 2)
   \<and> Start_body ex_peers (Some 1) ex_round1 \<noteq> Continue (Some 1)
   \<and> Start_loop ex_peers (Some 1) [ex_round1, ex_round2] = Some (Some 2)"
  by (simp add: Start_body_def sendPrepare_def sendCommit_def prepare_replies_def
      commit_replies_def prepare_reply_def commit_reply_def commit_recv_def
      ex_peers_simps ex_round1_def ex_round2_def upt_rec)

text \<open>
  Claim C1, amended.  When the prepare broadcast of a round reaches quorum and its accept
  broadcast does not, the proposer starts the next round with the candidate it sent in
  the failed accept broadcast: the value \<^verbatim>\<open>nv\<close> returned by \<^verbatim>\<open>sendPrepare\<close> when
  that is not \<^verbatim>\<open>nil\<close>, and the candidate it entered the round with otherwise.  The
  value given to \<^verbatim>\<open>Start\<close> is not restored.
\<close>

theorem Start_accept_failure_keeps_candidate:
  assumes "sendPrepare px (now r) (prepare_ch r) = (True, t, nv)"
    and "\<not> sendCommit px (commit_ch r)"
  shows "Start_body px v0 r = Continue (case nv of None \<Rightarrow> v0 | Some w \<Rightarrow> Some w)
       \<and> Start_loop px v0 (r # rs)
           = Start_loop px (case nv of None \<Rightarrow> v0 | Some w \<Rightarrow> Some w) rs"
  using assms by (simp add: Start_body_def Let_def split: option.splits)

text \<open>In \<open>ex_round1\<close> the loop goes on with the adopted value 2.\<close>

theorem Start_accept_failure_keeps_candidate_witness:
  "sendPrepare ex_peers (now ex_round1) (prepare_ch ex_round1) = (True, 10, Some 2)
   \<and> \<not> sendCommit ex_peers (commit_ch ex_round1)
   \<and> Start_body ex_peers (Some 1) ex_round1 = Continue (Some 2)
   \<and> Start_loop ex_peers (Some 1) [ex_round1, ex_round2]
       = Start_loop ex_peers (Some 2) [ex_round2]"
proof -
  have h1: "sendPrepare ex_peers (now ex_round1) (prepare_ch ex_round1) = (True, 10, Some 2)"
    by (simp add: sendPrepare_def prepare_replies_def prepare_reply_def
        ex_peers_simps ex_round1_def upt_rec)
  have h2: "\<not> sendCommit ex_peers (commit_ch ex_round1)"
    by (simp add: sendCommit_def commit_replies_def commit_reply_def commit_recv_def
        ex_peers_simps ex_round1_def upt_rec)
  from Start_accept_failure_keeps_candidate [OF h1 h2, of "Some 1" "[ex_round2]"] h1 h2
  show ?thesis by simp
qed

section \<open>The watermark minimum\<close>

lemma Min_ans_fold: "foldl (\<lambda>ans d. if ans > d then d else ans) a ds = Min (insert a (set ds))"
proof (induction ds arbitrary: a)
  case Nil
  then show ?case by simp
next
  case (Cons d ds)
  have "Min (insert a (insert d (set ds))) = Min (insert (min a d) (set ds))"
    by (cases "set ds = {}") (simp_all add: min.assoc)
  moreover have "(if a > d then d else a) = min a d" by simp
  ultimately show ?case using Cons.IH [of "min a d"] by simp
qed

lemma Min_ans_below_cap:
  assumes "ds \<noteq> []" and "\<exists>d\<in>set ds. d \<le> 0x7fffffff"
  shows "Min_ans ds = Min (set ds)"
proof -
  from assms(1) have ne: "set ds \<noteq> {}" by simp
  from assms(2) obtain d where d: "d \<in> set ds" "d \<le> 0x7fffffff" by blast
  have "Min (set ds) \<le> d" using d(1) by (intro Min_le) simp_all
  with d(2) have "Min (set ds) \<le> 0x7fffffff" by linarith
  moreover from ne have "Min (insert 0x7fffffff (set ds)) = min 0x7fffffff (Min (set ds))"
    by (rule Min_insert [OF finite_set])
  ultimately have "Min (insert 0x7fffffff (set ds)) = Min (set ds)"
    by linarith
  with assms(1) show ?thesis by (simp add: Min_ans_def Min_ans_fold)
qed

text \<open>
  While some watermark entry is at most \<open>0x7fffffff\<close>, \<^verbatim>\<open>Min\<close> returns one more than
  the least entry and removes exactly the decided instances below the least entry.
\<close>

lemma MinP_below_cap:
  assumes "dones px \<noteq> []" and "\<exists>d\<in>set (dones px). d \<le> 0x7fffffff"
  shows "snd (MinP px) = 1 + Min (set (dones px))
     \<and> (\<forall>seq. instances (fst (MinP px)) seq =
           (case instances px seq of
              None \<Rightarrow> None
            | Some inst \<Rightarrow> if seq < Min (set (dones px)) \<and> status inst = StateDecided
                            then None else Some inst))
     \<and> peers (fst (MinP px)) = peers px \<and> me (fst (MinP px)) = me px
     \<and> dones (fst (MinP px)) = dones px"
  by (simp add: MinP_def Let_def Min_ans_below_cap [OF assms])

text \<open>
  Claim C7.  For a peer set that is not empty, \<^verbatim>\<open>Min\<close> is to return one more than the
  least watermark entry and to remove exactly the decided instances below that entry.
  The loop starts from \<open>0x7fffffff\<close>, which is not the greatest \<^verbatim>\<open>int\<close> of a 64-bit
  target: a single peer that serves a Decide for the sequence number \<open>2\<^sup>3\<^sup>1 - 1\<close> with
  the watermark \<open>2\<^sup>3\<^sup>1\<close> is in the state \<open>ex_big\<close>, where \<^verbatim>\<open>Min\<close> returns
  \<open>2\<^sup>3\<^sup>1\<close> and not \<open>2\<^sup>3\<^sup>1 + 1\<close>, and keeps the decided instance although its
  sequence number is below the least entry.
\<close>

theorem MinP_above_cap:
  "AcceptDecided \<lparr>dreq_Seq = 2147483647, dreq_Value = Some 1, dreq_Svrid = 0,
                   dreq_Done = 2147483648\<rparr> (Make [''a''] 0) = Inr ex_big
   \<and> snd (MinP ex_big) = 2147483648
   \<and> 1 + Min (set (dones ex_big)) = 2147483649
   \<and> 2147483647 < Min (set (dones ex_big))
   \<and> Status 2147483647 ex_big = (True, Some 1)
   \<and> instances (fst (MinP ex_big)) 2147483647 = instances ex_big 2147483647"
  by (simp add: AcceptDecided_def Make_def MinP_def Min_ans_def Status_def ex_big_def)

end
